theory Spec2Isabelle
  imports Main "HOL-Library.Sublist"
begin

section \<open>Python values, exceptions and strings\<close>

text \<open>
  The agent of \<^verbatim>\<open>pc.py\<close> and \<^verbatim>\<open>pc1.py\<close> passes untyped Python objects around: what
  \<^verbatim>\<open>yaml.safe_load\<close> builds is indexed, compared with \<^verbatim>\<open>"search"\<close>, stored in the shared
  dictionary and formatted into prompts. \<open>pyval\<close> is the JSON-like part of those objects
  (a dictionary is a list of key/value pairs in insertion order, with distinct keys).
  An object of any other class (a float, a date, bytes, a set) is \<open>PObj t h s r\<close>: its truth
  value, whether it is hashable, its \<^verbatim>\<open>str()\<close> and its \<^verbatim>\<open>repr()\<close>, which is all this
  program can observe of it.
  A \<open>string\<close> stands for a Python \<^verbatim>\<open>str\<close> whose code points are below 256.
\<close>

datatype pyval =
    PNone
  | PBool bool
  | PInt int
  | PStr string
  | PList "pyval list"
  | PDict "(pyval \<times> pyval) list"
  | PObj bool bool string string

text \<open>
  Exceptions are values. \<open>YAMLError\<close> carries the text \<^verbatim>\<open>str(exc)\<close>; \<open>OtherError\<close> is an
  exception of any class the code never names (it carries the class name).
\<close>

datatype exn =
    KeyError
  | TypeError
  | AttributeError
  | YAMLError string
  | OtherError string

type_synonym 'a result = "exn + 'a"

text \<open>Truth value of an object, as \<^verbatim>\<open>or\<close> and \<^verbatim>\<open>if\<close> test it.\<close>

fun truthy :: "pyval \<Rightarrow> bool" where
  "truthy PNone = False"
| "truthy (PBool b) = b"
| "truthy (PInt i) = (i \<noteq> 0)"
| "truthy (PStr s) = (s \<noteq> [])"
| "truthy (PList xs) = (xs \<noteq> [])"
| "truthy (PDict kvs) = (kvs \<noteq> [])"
| "truthy (PObj t h s r) = t"

text \<open>\<^verbatim>\<open>d[key]\<close> for a string key: only a dictionary can be indexed by a string.\<close>

fun getitem :: "pyval \<Rightarrow> string \<Rightarrow> pyval result" where
  "getitem (PDict kvs) k =
     (case map_of kvs (PStr k) of None \<Rightarrow> Inl KeyError | Some v \<Rightarrow> Inr v)"
| "getitem v k = Inl TypeError"

text \<open>\<^verbatim>\<open>d.get(key, default)\<close>: only a dictionary has the method.\<close>

fun get_method :: "pyval \<Rightarrow> string \<Rightarrow> pyval \<Rightarrow> pyval result" where
  "get_method (PDict kvs) k d =
     (case map_of kvs (PStr k) of None \<Rightarrow> Inr d | Some v \<Rightarrow> Inr v)"
| "get_method v k d = Inl AttributeError"

text \<open>
  White space as \<^verbatim>\<open>str.isspace\<close>, \<^verbatim>\<open>str.strip\<close> and the regular expression class
  \<^verbatim>\<open>\s\<close> see it on code points below 256: TAB..CR, FS..US, space, NEL and NBSP.
\<close>

definition is_space :: "char \<Rightarrow> bool" where
  "is_space c =
     (let n = (of_char c :: nat)
      in (9 \<le> n \<and> n \<le> 13) \<or> (28 \<le> n \<and> n \<le> 32) \<or> n = 133 \<or> n = 160)"

definition lstrip :: "string \<Rightarrow> string" where
  "lstrip s = dropWhile is_space s"

definition rstrip :: "string \<Rightarrow> string" where
  "rstrip s = rev (dropWhile is_space (rev s))"

definition strip :: "string \<Rightarrow> string" where
  "strip s = rstrip (lstrip s)"

section \<open>The Decision Parser\<close>

subsection \<open>The regular expression search\<close>

text \<open>
  \<^verbatim>\<open>re.search(r"```yaml\s*(.*?)\s*```", response, re.DOTALL)\<close>, as a backtracking
  matcher runs it. Each function is one piece of the pattern, matched at the head of its
  argument and followed by the rest of the pattern; a greedy star tries the longer match
  first, the lazy star the shorter one. The search returns group 1 of the leftmost match.
\<close>

definition fence_open :: string where
  "fence_open = ''```yaml''"

definition fence_close :: string where
  "fence_close = ''```''"

text \<open>\<^verbatim>\<open>\s*```\<close>: the greedy star takes a blank when it can and gives it back on failure.\<close>

fun ws_fence :: "string \<Rightarrow> bool" where
  "ws_fence [] = prefix fence_close []"
| "ws_fence (c # cs) =
     (if is_space c then ws_fence cs \<or> prefix fence_close (c # cs)
      else prefix fence_close (c # cs))"

text \<open>\<^verbatim>\<open>(.*?)\s*```\<close>: the lazy group grows by one character (any character, with
  \<^verbatim>\<open>re.DOTALL\<close>) only when the rest of the pattern fails. The result is the group.\<close>

fun lazy_group :: "string \<Rightarrow> string option" where
  "lazy_group [] = (if ws_fence [] then Some [] else None)"
| "lazy_group (c # cs) =
     (if ws_fence (c # cs) then Some []
      else map_option ((#) c) (lazy_group cs))"

text \<open>\<^verbatim>\<open>\s*(.*?)\s*```\<close>: the first greedy star.\<close>

fun after_open :: "string \<Rightarrow> string option" where
  "after_open [] = lazy_group []"
| "after_open (c # cs) =
     (if is_space c
      then (case after_open cs of Some g \<Rightarrow> Some g | None \<Rightarrow> lazy_group (c # cs))
      else lazy_group (c # cs))"

text \<open>The whole pattern at the head of the string.\<close>

definition match_here :: "string \<Rightarrow> string option" where
  "match_here s =
     (if prefix fence_open s then after_open (drop (length fence_open) s) else None)"

text \<open>\<^verbatim>\<open>re.search\<close>: the leftmost start position that matches; \<open>None\<close> is no match.\<close>

fun re_search :: "string \<Rightarrow> string option" where
  "re_search [] = match_here []"
| "re_search (c # cs) =
     (case match_here (c # cs) of Some g \<Rightarrow> Some g | None \<Rightarrow> re_search cs)"

subsection \<open>extract\_decision\<close>

text \<open>
  \<^verbatim>\<open>yaml.safe_load\<close> belongs to PyYAML, not to this repository: it is the parameter
  \<open>safe_load\<close>, which returns an object or raises. The two files differ only in writing
  the choice of \<open>yaml_text\<close> as a statement or as a conditional expression.
\<close>

definition yaml_text :: "string \<Rightarrow> string" where
  "yaml_text response =
     (case re_search response of
        Some g \<Rightarrow> strip g
      | None \<Rightarrow> strip response)"

text \<open>The \<^verbatim>\<open>try\<close> statement: only \<^verbatim>\<open>yaml.YAMLError\<close> is caught.\<close>

definition try_load :: "(string \<Rightarrow> pyval result) \<Rightarrow> string \<Rightarrow> pyval result" where
  "try_load safe_load text =
     (case safe_load text of
        Inr v \<Rightarrow> Inr (if truthy v then v else PDict [])
      | Inl (YAMLError msg) \<Rightarrow> Inr (PDict [(PStr ''raw'', PStr text), (PStr ''_error'', PStr msg)])
      | Inl e \<Rightarrow> Inl e)"

definition extract_decision :: "(string \<Rightarrow> pyval result) \<Rightarrow> string \<Rightarrow> pyval result" where
  "extract_decision safe_load response = try_load safe_load (yaml_text response)"

section \<open>Formatting objects into text\<close>

text \<open>
  An f-string field \<^verbatim>\<open>{x}\<close> and \<^verbatim>\<open>str.format\<close> insert \<^verbatim>\<open>str(x)\<close>: the string itself
  for a string, the \<^verbatim>\<open>repr\<close> for the other built-in objects.
\<close>

fun digits :: "nat \<Rightarrow> string" where
  "digits n =
     (if n < 10 then [char_of (48 + n)]
      else digits (n div 10) @ [char_of (48 + n mod 10)])"

definition int_str :: "int \<Rightarrow> string" where
  "int_str i = (if i < 0 then CHR ''-'' # digits (nat (- i)) else digits (nat i))"

definition hex_digit :: "nat \<Rightarrow> char" where
  "hex_digit n = (if n < 10 then char_of (48 + n) else char_of (87 + n))"

definition printable :: "char \<Rightarrow> bool" where
  "printable c =
     (let n = (of_char c :: nat) in (32 \<le> n \<and> n < 127) \<or> (161 \<le> n \<and> n \<noteq> 173))"

definition repr_char :: "char \<Rightarrow> char \<Rightarrow> string" where
  "repr_char quote c =
     (if c = quote \<or> c = CHR 0x5C then [CHR 0x5C, c]
      else if c = CHR 0x09 then [CHR 0x5C, CHR ''t'']
      else if c = CHR 0x0A then [CHR 0x5C, CHR ''n'']
      else if c = CHR 0x0D then [CHR 0x5C, CHR ''r'']
      else if printable c then [c]
      else [CHR 0x5C, CHR ''x'', hex_digit (of_char c div 16), hex_digit (of_char c mod 16)])"

definition str_repr :: "string \<Rightarrow> string" where
  "str_repr s =
     (let quote = (if CHR 0x27 \<in> set s \<and> CHR 0x22 \<notin> set s then CHR 0x22 else CHR 0x27)
      in quote # concat (map (repr_char quote) s) @ [quote])"

text \<open>\<^verbatim>\<open>sep.join(parts)\<close>\<close>

fun join :: "string \<Rightarrow> string list \<Rightarrow> string" where
  "join sep [] = []"
| "join sep [x] = x"
| "join sep (x # y # ys) = x @ sep @ join sep (y # ys)"

fun py_repr :: "pyval \<Rightarrow> string" where
  "py_repr PNone = ''None''"
| "py_repr (PBool b) = (if b then ''True'' else ''False'')"
| "py_repr (PInt i) = int_str i"
| "py_repr (PStr s) = str_repr s"
| "py_repr (PList xs) = ''['' @ join '', '' (map py_repr xs) @ '']''"
| "py_repr (PDict kvs) =
     ''{'' @ join '', '' (map (\<lambda>kv. py_repr (fst kv) @ '': '' @ py_repr (snd kv)) kvs) @ ''}''"
| "py_repr (PObj t h s r) = r"

fun py_str :: "pyval \<Rightarrow> string" where
  "py_str (PStr s) = s"
| "py_str (PObj t h s r) = s"
| "py_str v = py_repr v"

text \<open>\<^verbatim>\<open>a + b\<close> where the code means string concatenation: any other operand is a
  \<^verbatim>\<open>TypeError\<close>.\<close>

fun py_add :: "pyval \<Rightarrow> pyval \<Rightarrow> pyval result" where
  "py_add (PStr a) (PStr b) = Inr (PStr (a @ b))"
| "py_add a b = Inl TypeError"

section \<open>The collaborators: language model and search provider\<close>

text \<open>
  \<^verbatim>\<open>ollama.chat\<close> is the parameter \<open>chat\<close>, a function of the prompt that returns a
  response (a dictionary holding a message, itself a dictionary) or raises.
  \<^verbatim>\<open>call_llm\<close> catches every exception, so it returns a plain string. What it prints is
  not modelled.
\<close>

type_synonym chat_response = "string \<rightharpoonup> (string \<rightharpoonup> string)"

definition call_llm :: "(string \<Rightarrow> chat_response result) \<Rightarrow> string \<Rightarrow> string" where
  "call_llm chat prompt =
     (case chat prompt of
        Inl e \<Rightarrow> []
      | Inr response \<Rightarrow>
          (case response ''message'' of
             None \<Rightarrow> []
           | Some message \<Rightarrow> (case message ''content'' of None \<Rightarrow> [] | Some content \<Rightarrow> content)))"

text \<open>
  \<^verbatim>\<open>DDGS().text(query, max_results=5)\<close> is the parameter \<open>ddgs_text\<close>; a result has the three
  text fields the code reads.
\<close>

record search_result =
  title :: string
  href :: string
  body :: string

definition format_result :: "search_result \<Rightarrow> string" where
  "format_result r =
     ''Title: '' @ title r @ ''\<newline>URL: '' @ href r @ ''\<newline>Snippet: '' @ body r"

definition search_web_duckduckgo ::
  "(pyval \<Rightarrow> search_result list result) \<Rightarrow> pyval \<Rightarrow> string result" where
  "search_web_duckduckgo ddgs_text query =
     (case ddgs_text query of
        Inl e \<Rightarrow> Inl e
      | Inr results \<Rightarrow> Inr (join ''\<newline>\<newline>'' (map format_result results)))"

section \<open>The nodes of the agent\<close>

text \<open>The shared store is a Python dictionary with string keys.\<close>

type_synonym shared = "string \<rightharpoonup> pyval"

subsection \<open>DecideAction\<close>

definition decide_prompt :: "string \<Rightarrow> string \<Rightarrow> string" where
  "decide_prompt question context =
     ''\<newline>'' @
     ''### CONTEXT\<newline>'' @
     ''You are a research assistant that can search the web.\<newline>'' @
     ''Question: '' @
     question @
     ''\<newline>'' @
     ''Previous Research: '' @
     context @
     ''\<newline>\<newline>'' @
     ''### ACTION SPACE\<newline>'' @
     ''[1] search\<newline>'' @
     ''  Description: Look up more information on the web\<newline>'' @
     ''  Parameters:\<newline>'' @
     ''    - query (str): What to search for\<newline>\<newline>'' @
     ''[2] answer\<newline>'' @
     ''  Description: Answer the question with current knowledge\<newline>'' @
     ''  Parameters:\<newline>'' @
     ''    - answer (str): Final answer to the question\<newline>\<newline>'' @
     ''## NEXT ACTION\<newline>'' @
     ''Decide the next action based on the context and available actions.\<newline>'' @
     ''Return your response in this format:\<newline>\<newline>'' @
     ''```yaml\<newline>'' @
     ''thinking: |\<newline>'' @
     ''    <your step-by-step reasoning process>\<newline>'' @
     ''action: search OR answer\<newline>'' @
     ''reason: <why you chose this action>\<newline>'' @
     ''answer: <if action is answer>\<newline>'' @
     ''search_query: <specific search query if action is search>\<newline>'' @
     ''```\<newline>'' @
     ''IMPORTANT: Make sure to:\<newline>'' @
     ''1. Use proper indentation (4 spaces) for all multi-line fields\<newline>'' @
     ''2. Use the | character for multi-line text fields\<newline>'' @
     ''3. Keep single-line fields without the | character\<newline>''"

definition DecideAction_prep :: "shared \<Rightarrow> (pyval \<times> pyval) result" where
  "DecideAction_prep shared =
     (let context = (case shared ''context'' of None \<Rightarrow> PStr ''No previous search'' | Some c \<Rightarrow> c)
      in case shared ''question'' of
           None \<Rightarrow> Inl KeyError
         | Some question \<Rightarrow> Inr (question, context))"

text \<open>The prompt that \<^verbatim>\<open>exec\<close> builds from the result of \<^verbatim>\<open>prep\<close>.\<close>

definition DecideAction_prompt :: "pyval \<times> pyval \<Rightarrow> string" where
  "DecideAction_prompt prep_res =
     (case prep_res of (question, context) \<Rightarrow> decide_prompt (py_str question) (py_str context))"

definition DecideAction_exec ::
  "(string \<Rightarrow> pyval result) \<Rightarrow> (string \<Rightarrow> chat_response result) \<Rightarrow> pyval \<times> pyval \<Rightarrow> pyval result" where
  "DecideAction_exec safe_load chat prep_res =
     (let response = call_llm chat (DecideAction_prompt prep_res)
      in extract_decision safe_load response)"

text \<open>\<^verbatim>\<open>post\<close> of \<^verbatim>\<open>pc.py\<close>: the decision is indexed with \<^verbatim>\<open>exec_res[...]\<close>. The result is the
  action returned and the shared store as updated.\<close>

definition DecideAction_post :: "shared \<Rightarrow> pyval \<Rightarrow> (pyval \<times> shared) result" where
  "DecideAction_post shared exec_res =
     (case getitem exec_res ''action'' of
        Inl e \<Rightarrow> Inl e
      | Inr action \<Rightarrow>
          (if action = PStr ''search''
           then (case getitem exec_res ''search_query'' of
                   Inl e \<Rightarrow> Inl e
                 | Inr query \<Rightarrow> Inr (action, shared(''search_query'' \<mapsto> query)))
           else (case getitem exec_res ''answer'' of
                   Inl e \<Rightarrow> Inl e
                 | Inr answer \<Rightarrow> Inr (action, shared(''context'' \<mapsto> answer)))))"

text \<open>\<^verbatim>\<open>post\<close> of \<^verbatim>\<open>pc1.py\<close>: the decision is read with \<^verbatim>\<open>exec_res.get(...)\<close>.\<close>

definition DecideAction_post_pc1 :: "shared \<Rightarrow> pyval \<Rightarrow> (pyval \<times> shared) result" where
  "DecideAction_post_pc1 shared exec_res =
     (case get_method exec_res ''action'' PNone of
        Inl e \<Rightarrow> Inl e
      | Inr action \<Rightarrow>
          (case (if action = PStr ''search''
                 then (case get_method exec_res ''search_query'' (PStr []) of
                         Inl e \<Rightarrow> Inl e
                       | Inr query \<Rightarrow> Inr (shared(''search_query'' \<mapsto> query)))
                 else (case get_method exec_res ''answer'' (PStr []) of
                         Inl e \<Rightarrow> Inl e
                       | Inr answer \<Rightarrow> Inr (shared(''context'' \<mapsto> answer)))) of
             Inl e \<Rightarrow> Inl e
           | Inr shared' \<Rightarrow>
               (case get_method exec_res ''action'' (PStr []) of
                  Inl e \<Rightarrow> Inl e
                | Inr result \<Rightarrow> Inr (result, shared'))))"

subsection \<open>SearchWeb\<close>

definition SearchWeb_prep :: "shared \<Rightarrow> pyval result" where
  "SearchWeb_prep shared =
     (case shared ''search_query'' of None \<Rightarrow> Inl KeyError | Some query \<Rightarrow> Inr query)"

definition SearchWeb_exec :: "(pyval \<Rightarrow> search_result list result) \<Rightarrow> pyval \<Rightarrow> string result" where
  "SearchWeb_exec ddgs_text search_query = search_web_duckduckgo ddgs_text search_query"

text \<open>\<^verbatim>\<open>post\<close> of \<^verbatim>\<open>pc.py\<close>: a chain of \<^verbatim>\<open>+\<close>, evaluated from the left.\<close>

definition SearchWeb_post :: "shared \<Rightarrow> string \<Rightarrow> (pyval \<times> shared) result" where
  "SearchWeb_post shared exec_res =
     (let previous = (case shared ''context'' of None \<Rightarrow> PStr [] | Some c \<Rightarrow> c)
      in case py_add previous (PStr ''\<newline>\<newline>SEARCH: '') of
           Inl e \<Rightarrow> Inl e
         | Inr s1 \<Rightarrow>
             (case shared ''search_query'' of
                None \<Rightarrow> Inl KeyError
              | Some query \<Rightarrow>
                  (case py_add s1 query of
                     Inl e \<Rightarrow> Inl e
                   | Inr s2 \<Rightarrow>
                       (case py_add s2 (PStr ''\<newline>RESULTS: '') of
                          Inl e \<Rightarrow> Inl e
                        | Inr s3 \<Rightarrow>
                            (case py_add s3 (PStr exec_res) of
                               Inl e \<Rightarrow> Inl e
                             | Inr s4 \<Rightarrow> Inr (PStr ''decide'', shared(''context'' \<mapsto> s4)))))))"

text \<open>\<^verbatim>\<open>post\<close> of \<^verbatim>\<open>pc1.py\<close>: the entry is an f-string, added to the previous context.\<close>

definition SearchWeb_post_pc1 :: "shared \<Rightarrow> string \<Rightarrow> (pyval \<times> shared) result" where
  "SearchWeb_post_pc1 shared exec_res =
     (let previous = (case shared ''context'' of None \<Rightarrow> PStr [] | Some c \<Rightarrow> c)
      in case shared ''search_query'' of
           None \<Rightarrow> Inl KeyError
         | Some query \<Rightarrow>
             (case py_add previous
                     (PStr (''\<newline>\<newline>SEARCH: '' @ py_str query @ ''\<newline>RESULTS: '' @ exec_res)) of
                Inl e \<Rightarrow> Inl e
              | Inr s \<Rightarrow> Inr (PStr ''decide'', shared(''context'' \<mapsto> s))))"

subsection \<open>AnswerQuestion\<close>

definition answer_prompt :: "string \<Rightarrow> string \<Rightarrow> string" where
  "answer_prompt question context =
     ''\<newline>'' @
     ''### CONTEXT\<newline>'' @
     ''Based on the following information, answer the question.\<newline>'' @
     ''Question: '' @
     question @
     ''\<newline>'' @
     ''Research: '' @
     context @
     ''\<newline>\<newline>'' @
     ''## YOUR ANSWER:\<newline>'' @
     ''Provide a comprehensive answer using the research results.\<newline>''"

definition AnswerQuestion_prep :: "shared \<Rightarrow> (pyval \<times> pyval) result" where
  "AnswerQuestion_prep shared =
     (case shared ''question'' of
        None \<Rightarrow> Inl KeyError
      | Some question \<Rightarrow>
          Inr (question, (case shared ''context'' of None \<Rightarrow> PStr [] | Some c \<Rightarrow> c)))"

definition AnswerQuestion_exec :: "(string \<Rightarrow> chat_response result) \<Rightarrow> pyval \<times> pyval \<Rightarrow> string" where
  "AnswerQuestion_exec chat inputs =
     (case inputs of (question, context) \<Rightarrow>
        call_llm chat (answer_prompt (py_str question) (py_str context)))"

definition AnswerQuestion_post :: "shared \<Rightarrow> string \<Rightarrow> pyval \<times> shared" where
  "AnswerQuestion_post shared exec_res = (PStr ''done'', shared(''answer'' \<mapsto> PStr exec_res))"

section \<open>The flow\<close>

text \<open>
  \<^verbatim>\<open>create_agent_flow\<close> wires three nodes into a \<^verbatim>\<open>pocketflow.Flow\<close> that starts at
  \<^verbatim>\<open>DecideAction\<close>. The library runs a node as \<^verbatim>\<open>prep\<close>, \<^verbatim>\<open>exec\<close>, \<^verbatim>\<open>post\<close> (with the default
  \<^verbatim>\<open>max_retries=1\<close> an exception of \<^verbatim>\<open>exec\<close> is raised again), looks the returned action up
  in the node's successors (\<^verbatim>\<open>curr.successors.get(action or "default")\<close>) and stops when
  there is none.
\<close>

datatype variant = Pc | Pc1

datatype node = Decide | Search | Answer

fun successors :: "node \<Rightarrow> (string \<times> node) list" where
  "successors Decide = [(''search'', Search), (''answer'', Answer)]"
| "successors Search = [(''decide'', Decide)]"
| "successors Answer = []"

fun hashable :: "pyval \<Rightarrow> bool" where
  "hashable (PList xs) = False"
| "hashable (PDict kvs) = False"
| "hashable (PObj t h s r) = h"
| "hashable v = True"

definition get_next_node :: "node \<Rightarrow> pyval \<Rightarrow> node option result" where
  "get_next_node cur action =
     (let key = (if truthy action then action else PStr ''default'')
      in if \<not> hashable key then Inl TypeError
         else (case key of PStr k \<Rightarrow> Inr (map_of (successors cur) k) | _ \<Rightarrow> Inr None))"

text \<open>
  A session is the shared store, the number of calls made to the language model so far
  (the model may answer each call differently: \<open>chat n\<close> is its behaviour at call \<open>n\<close>), and
  the nodes run so far.
\<close>

record session =
  store :: shared
  llm_calls :: nat
  visited :: "node list"

definition run_node ::
  "variant \<Rightarrow> (string \<Rightarrow> pyval result) \<Rightarrow> (nat \<Rightarrow> string \<Rightarrow> chat_response result) \<Rightarrow>
   (pyval \<Rightarrow> search_result list result) \<Rightarrow> node \<Rightarrow> session \<Rightarrow> (pyval \<times> session) result" where
  "run_node v safe_load chat ddgs_text cur s =
     (case cur of
        Decide \<Rightarrow>
          (case DecideAction_prep (store s) of
             Inl e \<Rightarrow> Inl e
           | Inr prep_res \<Rightarrow>
               (case DecideAction_exec safe_load (chat (llm_calls s)) prep_res of
                  Inl e \<Rightarrow> Inl e
                | Inr exec_res \<Rightarrow>
                    (case (case v of Pc \<Rightarrow> DecideAction_post (store s) exec_res
                                   | Pc1 \<Rightarrow> DecideAction_post_pc1 (store s) exec_res) of
                       Inl e \<Rightarrow> Inl e
                     | Inr (action, shared') \<Rightarrow>
                         Inr (action, \<lparr>store = shared', llm_calls = Suc (llm_calls s),
                                       visited = visited s @ [Decide]\<rparr>))))
      | Search \<Rightarrow>
          (case SearchWeb_prep (store s) of
             Inl e \<Rightarrow> Inl e
           | Inr prep_res \<Rightarrow>
               (case SearchWeb_exec ddgs_text prep_res of
                  Inl e \<Rightarrow> Inl e
                | Inr exec_res \<Rightarrow>
                    (case (case v of Pc \<Rightarrow> SearchWeb_post (store s) exec_res
                                   | Pc1 \<Rightarrow> SearchWeb_post_pc1 (store s) exec_res) of
                       Inl e \<Rightarrow> Inl e
                     | Inr (action, shared') \<Rightarrow>
                         Inr (action, \<lparr>store = shared', llm_calls = llm_calls s,
                                       visited = visited s @ [Search]\<rparr>))))
      | Answer \<Rightarrow>
          (case AnswerQuestion_prep (store s) of
             Inl e \<Rightarrow> Inl e
           | Inr prep_res \<Rightarrow>
               (case AnswerQuestion_post (store s)
                       (AnswerQuestion_exec (chat (llm_calls s)) prep_res) of
                  (action, shared') \<Rightarrow>
                    Inr (action, \<lparr>store = shared', llm_calls = Suc (llm_calls s),
                                  visited = visited s @ [Answer]\<rparr>))))"

text \<open>\<^verbatim>\<open>Flow._orch\<close>: the loop has no bound, so not returning is the value \<open>None\<close>.\<close>

partial_function (option) orch ::
  "variant \<Rightarrow> (string \<Rightarrow> pyval result) \<Rightarrow> (nat \<Rightarrow> string \<Rightarrow> chat_response result) \<Rightarrow>
   (pyval \<Rightarrow> search_result list result) \<Rightarrow> node \<Rightarrow> session \<Rightarrow>
   (pyval \<times> session) result option" where
  "orch v safe_load chat ddgs_text cur s =
     (case run_node v safe_load chat ddgs_text cur s of
        Inl e \<Rightarrow> Some (Inl e)
      | Inr (last_action, s') \<Rightarrow>
          (case get_next_node cur last_action of
             Inl e \<Rightarrow> Some (Inl e)
           | Inr None \<Rightarrow> Some (Inr (last_action, s'))
           | Inr (Some nxt) \<Rightarrow> orch v safe_load chat ddgs_text nxt s'))"

declare orch.simps [code]

text \<open>\<^verbatim>\<open>agent_flow.run(shared)\<close> on the flow of \<^verbatim>\<open>create_agent_flow()\<close>.\<close>

definition agent_flow_run ::
  "variant \<Rightarrow> (string \<Rightarrow> pyval result) \<Rightarrow> (nat \<Rightarrow> string \<Rightarrow> chat_response result) \<Rightarrow>
   (pyval \<Rightarrow> search_result list result) \<Rightarrow> shared \<Rightarrow> (pyval \<times> session) result option" where
  "agent_flow_run v safe_load chat ddgs_text shared =
     orch v safe_load chat ddgs_text Decide \<lparr>store = shared, llm_calls = 0, visited = []\<rparr>"

section \<open>Test fixtures\<close>

text \<open>
  A model reply that is one fenced block deciding to answer with the text \<open>X\<close> in double
  quotes, the payload inside that block, and the model stub of the end-to-end scenario,
  which gives this reply with \<open>John Doe\<close> at every call. \<open>stub_load\<close> is a loader that knows
  that one payload.
\<close>

definition answer_payload :: "string \<Rightarrow> string" where
  \<open>answer_payload X = ''action: answer\<newline>answer: "'' @ X @ ''"''\<close>

definition answer_block :: "string \<Rightarrow> string" where
  \<open>answer_block X = ''```yaml\<newline>'' @ answer_payload X @ ''\<newline>```''\<close>

definition stub_chat :: "nat \<Rightarrow> string \<Rightarrow> chat_response result" where
  "stub_chat n prompt = Inr [''message'' \<mapsto> [''content'' \<mapsto> answer_block ''John Doe'']]"

definition stub_load :: "string \<Rightarrow> pyval result" where
  "stub_load text =
     (if text = answer_payload ''John Doe''
      then Inr (PDict [(PStr ''action'', PStr ''answer''), (PStr ''answer'', PStr ''John Doe'')])
      else Inl (YAMLError ''unexpected payload''))"

section \<open>Facts about the regular expression search\<close>

lemma backtick_not_space: "\<not> is_space (CHR 0x60)"
  by (simp add: is_space_def)

lemma fence_close_Cons: "fence_close = CHR 0x60 # ''``''"
  by (simp add: fence_close_def)

lemma prefix_fence_space: "is_space c \<Longrightarrow> \<not> prefix fence_close (c # cs)"
  using backtick_not_space by (auto simp: fence_close_Cons)

lemma ws_fence_dropWhile: "ws_fence s = prefix fence_close (dropWhile is_space s)"
proof (induction s)
  case Nil
  show ?case by simp
next
  case (Cons c cs)
  show ?case
  proof (cases "is_space c")
    case True
    with Cons prefix_fence_space[OF True, of cs] show ?thesis by simp
  next
    case False
    then show ?thesis by simp
  qed
qed

lemma no_fence_in_two: "\<not> sublist fence_close ''``''"
  by (simp add: fence_close_def sublist_code)

lemma dropWhile_fence: "dropWhile is_space (fence_close @ post) = fence_close @ post"
  using backtick_not_space by (simp add: fence_close_Cons)

lemma prefix_fence_inside:
  assumes "u \<noteq> []" and "prefix fence_close (u @ fence_close @ post)"
  shows "prefix fence_close (u @ ''``'')"
proof -
  obtain a u1 where u: "u = a # u1" using assms(1) by (cases u) auto
  show ?thesis
  proof (cases u1)
    case Nil
    with u assms(2) show ?thesis by (simp add: fence_close_def)
  next
    case (Cons b u2)
    show ?thesis
    proof (cases u2)
      case Nil
      with u Cons assms(2) show ?thesis by (auto simp: fence_close_def)
    next
      case (Cons c u3)
      with u \<open>u1 = b # u2\<close> assms(2) show ?thesis by (auto simp: fence_close_def)
    qed
  qed
qed

lemma no_fence_suffix:
  assumes "\<not> sublist fence_close (t @ ''``'')" and "suffix u t"
  shows "\<not> sublist fence_close (u @ ''``'')"
proof
  assume "sublist fence_close (u @ ''``'')"
  moreover from assms(2) obtain p where "t = p @ u" by (auto simp: suffix_def)
  ultimately have "sublist fence_close (t @ ''``'')"
    by (auto simp: sublist_def) (metis append.assoc)
  with assms(1) show False by simp
qed

lemma ws_fence_inside:
  assumes "\<not> sublist fence_close (t @ ''``'')"
  shows "ws_fence (t @ fence_close @ post) = (\<forall>c \<in> set t. is_space c)"
proof (cases "\<forall>c \<in> set t. is_space c")
  case True
  then have "dropWhile is_space (t @ fence_close @ post) = fence_close @ post"
    by (simp add: dropWhile_append2 dropWhile_fence)
  with True show ?thesis by (simp add: ws_fence_dropWhile)
next
  case False
  let ?u = "dropWhile is_space t"
  from False have ne: "?u \<noteq> []" by (auto simp: dropWhile_eq_Nil_conv)
  from False have dw: "dropWhile is_space (t @ fence_close @ post) = ?u @ fence_close @ post"
    by (auto simp: dropWhile_append1)
  have "suffix ?u t" by (rule suffix_dropWhile)
  with assms have nf: "\<not> sublist fence_close (?u @ ''``'')" by (rule no_fence_suffix)
  have "\<not> prefix fence_close (?u @ fence_close @ post)"
  proof
    assume "prefix fence_close (?u @ fence_close @ post)"
    with ne have "prefix fence_close (?u @ ''``'')" by (rule prefix_fence_inside)
    with nf show False by auto
  qed
  with False dw show ?thesis by (simp add: ws_fence_dropWhile)
qed

lemma rstrip_all_space: "\<forall>c \<in> set t. is_space c \<Longrightarrow> rstrip t = []"
  by (simp add: rstrip_def dropWhile_eq_Nil_conv)

lemma rstrip_Cons: "\<not> (\<forall>c \<in> set (a # t). is_space c) \<Longrightarrow> rstrip (a # t) = a # rstrip t"
  by (auto simp: rstrip_def dropWhile_append dropWhile_eq_Nil_conv)

lemma lazy_group_inside:
  assumes "\<not> sublist fence_close (t @ ''``'')"
  shows "lazy_group (t @ fence_close @ post) = Some (rstrip t)"
  using assms
proof (induction t)
  case Nil
  have "ws_fence (fence_close @ post)" using ws_fence_inside[of "[]" post] no_fence_in_two by simp
  then show ?case by (simp add: fence_close_Cons rstrip_def)
next
  case (Cons a t)
  have nf: "\<not> sublist fence_close (t @ ''``'')"
    using Cons.prems no_fence_suffix[of "a # t" t] by (simp add: suffix_Cons)
  show ?case
  proof (cases "\<forall>c \<in> set (a # t). is_space c")
    case True
    with ws_fence_inside[OF Cons.prems, of post] have "ws_fence (a # t @ fence_close @ post)"
      by (simp del: ws_fence.simps)
    with True show ?thesis by (simp del: ws_fence.simps add: rstrip_all_space)
  next
    case False
    with ws_fence_inside[OF Cons.prems, of post] have "\<not> ws_fence (a # t @ fence_close @ post)"
      by (simp del: ws_fence.simps)
    with False Cons.IH[OF nf] show ?thesis by (simp del: ws_fence.simps add: rstrip_Cons)
  qed
qed

lemma after_open_inside:
  assumes "\<not> sublist fence_close (t @ ''``'')"
  shows "after_open (t @ fence_close @ post) = Some (strip t)"
  using assms
proof (induction t)
  case Nil
  have "lazy_group (fence_close @ post) = Some []"
    using lazy_group_inside[of "[]" post] no_fence_in_two by (simp add: rstrip_def)
  moreover have "after_open (fence_close @ post) = lazy_group (fence_close @ post)"
    using backtick_not_space by (simp add: fence_close_Cons)
  ultimately show ?case by (simp add: strip_def lstrip_def rstrip_def)
next
  case (Cons a t)
  have nf: "\<not> sublist fence_close (t @ ''``'')"
    using Cons.prems no_fence_suffix[of "a # t" t] by (simp add: suffix_Cons)
  show ?case
  proof (cases "is_space a")
    case True
    with Cons.IH[OF nf] show ?thesis by (simp add: strip_def lstrip_def)
  next
    case False
    with lazy_group_inside[OF Cons.prems, of post] show ?thesis
      by (simp add: strip_def lstrip_def)
  qed
qed

lemma match_here_block:
  assumes "\<not> sublist fence_close (t @ ''``'')"
  shows "match_here (fence_open @ t @ fence_close @ post) = Some (strip t)"
  using after_open_inside[OF assms] by (simp add: match_here_def)

lemma fence_open_unbordered:
  assumes "prefix fence_open (pre @ fence_open @ rest)"
  shows "pre = [] \<or> prefix fence_open pre"
proof (cases "length pre \<ge> 7")
  case True
  have "prefix pre (pre @ fence_open @ rest)" by simp
  moreover from True have "length fence_open \<le> length pre" by (simp add: fence_open_def)
  ultimately have "prefix fence_open pre" using assms by (rule prefix_length_prefix[rotated])
  then show ?thesis ..
next
  case False
  then consider "pre = []" | a where "pre = [a]" | a b where "pre = [a, b]"
    | a b c where "pre = [a, b, c]" | a b c d where "pre = [a, b, c, d]"
    | a b c d e where "pre = [a, b, c, d, e]" | a b c d e f where "pre = [a, b, c, d, e, f]"
    by (auto simp: not_le less_Suc_eq length_Suc_conv numeral_eq_Suc)
  then show ?thesis using assms by cases (auto simp: fence_open_def)
qed

lemma re_search_here: "match_here s = Some g \<Longrightarrow> re_search s = Some g"
  by (cases s) simp_all

lemma re_search_skip:
  assumes "\<not> sublist fence_open pre" and "match_here (fence_open @ rest) = Some g"
  shows "re_search (pre @ fence_open @ rest) = Some g"
  using assms
proof (induction pre)
  case Nil
  then show ?case by (simp add: re_search_here)
next
  case (Cons a pre)
  from Cons.prems have np: "\<not> prefix fence_open (a # pre)" and ns: "\<not> sublist fence_open pre"
    by (auto simp: sublist_Cons_right)
  have "\<not> prefix fence_open ((a # pre) @ fence_open @ rest)"
    using fence_open_unbordered[of "a # pre" rest] np by auto
  then have "match_here ((a # pre) @ fence_open @ rest) = None" by (simp add: match_here_def)
  with Cons.IH[OF ns Cons.prems(2)] show ?case by simp
qed

lemma rstrip_idem: "rstrip (rstrip t) = rstrip t"
  by (simp add: rstrip_def)

lemma lstrip_rstrip_lstrip: "lstrip (rstrip (lstrip t)) = rstrip (lstrip t)"
proof (cases "lstrip t")
  case Nil
  then show ?thesis by (simp add: rstrip_def lstrip_def del: dropWhile_eq_Nil_conv)
next
  case (Cons a u)
  then have "\<not> is_space a"
    unfolding lstrip_def by (metis hd_dropWhile list.distinct(1) list.sel(1))
  then have "rstrip (a # u) = a # rstrip u" by (simp add: rstrip_Cons)
  with Cons \<open>\<not> is_space a\<close> show ?thesis by (simp add: lstrip_def)
qed

lemma strip_idem: "strip (strip t) = strip t"
  by (simp add: strip_def lstrip_rstrip_lstrip rstrip_idem)

lemma extract_decision_block:
  assumes "\<not> sublist fence_open pre" and "\<not> sublist fence_close (interior @ ''``'')"
  shows "extract_decision safe_load (pre @ fence_open @ interior @ fence_close @ post)
         = try_load safe_load (strip interior)"
  using re_search_skip[OF assms(1) match_here_block[OF assms(2)], of post]
  by (simp add: extract_decision_def yaml_text_def strip_idem)

section \<open>The claims\<close>

lemma yaml_text_empty: "yaml_text [] = []"
  by (simp add: yaml_text_def match_here_def fence_open_def strip_def lstrip_def rstrip_def)

lemma extract_decision_fallback:
  "safe_load (yaml_text response) = Inl (YAMLError msg) \<Longrightarrow>
   extract_decision safe_load response
     = Inr (PDict [(PStr ''raw'', PStr (yaml_text response)), (PStr ''_error'', PStr msg)])"
  by (simp add: extract_decision_def try_load_def)

lemma extract_decision_value:
  "safe_load (yaml_text response) = Inr v \<Longrightarrow>
   extract_decision safe_load response = Inr (if truthy v then v else PDict [])"
  by (simp add: extract_decision_def try_load_def)

lemma decide_post_pc1_mapping:
  "\<exists>action shared'. DecideAction_post_pc1 shared (PDict kvs) = Inr (action, shared')"
  by (simp add: DecideAction_post_pc1_def split: option.split)

lemma decide_post_pc1_fallback:
  "DecideAction_post_pc1 shared (PDict [(PStr ''raw'', PStr text), (PStr ''_error'', PStr msg)])
     = Inr (PStr [], shared(''context'' \<mapsto> PStr []))"
  by (simp add: DecideAction_post_pc1_def)

lemma decide_post_pc1_scalar:
  "DecideAction_post_pc1 shared (PStr s) = Inl AttributeError"
  by (simp add: DecideAction_post_pc1_def)

lemma decide_post_scalar:
  "DecideAction_post shared (PStr s) = Inl TypeError"
  by (simp add: DecideAction_post_def)

lemma decide_post_unknown_action:
  "DecideAction_post shared (PDict [(PStr ''action'', PStr ''unknown'')]) = Inl KeyError"
  by (simp add: DecideAction_post_def)

lemma flow_crashes_on_malformed_reply:
  assumes "safe_load (yaml_text (call_llm (chat 0) (decide_prompt question ''No previous search'')))
           = Inl (YAMLError msg)"
  shows "agent_flow_run Pc safe_load chat ddgs_text [''question'' \<mapsto> PStr question]
       = Some (Inl KeyError)"
proof -
  let ?s0 = "\<lparr>store = [''question'' \<mapsto> PStr question], llm_calls = 0, visited = []\<rparr>"
  have "run_node Pc safe_load chat ddgs_text Decide ?s0 = Inl KeyError"
    using extract_decision_fallback[where safe_load = safe_load, OF assms]
    by (simp add: run_node_def DecideAction_prep_def DecideAction_exec_def
        DecideAction_prompt_def DecideAction_post_def)
  then have "orch Pc safe_load chat ddgs_text Decide ?s0 = Some (Inl KeyError)"
    by (subst orch.simps) simp
  then show ?thesis by (simp add: agent_flow_run_def)
qed

lemma flow_ends_unanswered_on_malformed_reply_pc1:
  assumes "safe_load (yaml_text (call_llm (chat 0) (decide_prompt question ''No previous search'')))
           = Inl (YAMLError msg)"
  shows "agent_flow_run Pc1 safe_load chat ddgs_text [''question'' \<mapsto> PStr question]
       = Some (Inr (PStr [],
           \<lparr>store = [''question'' \<mapsto> PStr question, ''context'' \<mapsto> PStr []],
            llm_calls = 1, visited = [Decide]\<rparr>))"
proof -
  let ?s0 = "\<lparr>store = [''question'' \<mapsto> PStr question], llm_calls = 0, visited = []\<rparr>"
  let ?s1 = "\<lparr>store = [''question'' \<mapsto> PStr question, ''context'' \<mapsto> PStr []],
            llm_calls = 1, visited = [Decide]\<rparr>"
  have "run_node Pc1 safe_load chat ddgs_text Decide ?s0 = Inr (PStr [], ?s1)"
    using extract_decision_fallback[where safe_load = safe_load, OF assms]
    by (simp add: run_node_def DecideAction_prep_def DecideAction_exec_def
        DecideAction_prompt_def DecideAction_post_pc1_def)
  moreover have "get_next_node Decide (PStr []) = Inr None"
    by (simp add: get_next_node_def)
  ultimately have "orch Pc1 safe_load chat ddgs_text Decide ?s0 = Some (Inr (PStr [], ?s1))"
    by (subst orch.simps) simp
  then show ?thesis by (simp add: agent_flow_run_def)
qed

lemma search_post_query_not_string:
  "SearchWeb_post [''search_query'' \<mapsto> PInt 2024] results = Inl TypeError"
  by (simp add: SearchWeb_post_def)

lemma py_str_examples:
  "py_str (PInt (- 2024)) = ''-2024''"
  "py_str (PList [PStr ''a'', PNone, PBool True]) = [CHR 0x5B, CHR 0x27] @ ''a'' @ [CHR 0x27] @ '', None, True]''"
  by code_simp+

text \<open>
  C1. The claim asks that \<^verbatim>\<open>DecideAction.post\<close> never raise on a decision without a
  recognised action. \<^verbatim>\<open>pc.py\<close> indexes the decision with \<^verbatim>\<open>exec_res["action"]\<close>: on the
  fallback record of the parser, which has the keys \<^verbatim>\<open>raw\<close> and \<^verbatim>\<open>_error\<close> only, it
  raises \<^verbatim>\<open>KeyError\<close>, whatever the shared store holds.
\<close>

theorem decide_post_raises_on_fallback:
  "DecideAction_post shared (PDict [(PStr ''raw'', PStr text), (PStr ''_error'', PStr msg)])
     = Inl KeyError"
  by (simp add: DecideAction_post_def)

text \<open>
  C2. The claim asks that \<^verbatim>\<open>extract_decision\<close> never raise. Its \<^verbatim>\<open>try\<close> statement
  catches \<^verbatim>\<open>yaml.YAMLError\<close> only: an exception of any other class that the loader raises
  on the candidate payload leaves \<^verbatim>\<open>extract_decision\<close> as it is.
\<close>

theorem extract_decision_propagates:
  assumes "safe_load (yaml_text response) = Inl e"
    and "\<forall>msg. e \<noteq> YAMLError msg"
  shows "extract_decision safe_load response = Inl e"
  using assms by (cases e) (simp_all add: extract_decision_def try_load_def)

theorem extract_decision_propagates_witness:
  "yaml_text ''2019-02-30'' = ''2019-02-30''
   \<and> extract_decision
        (\<lambda>text. if text = ''2019-02-30'' then Inl (OtherError ''ValueError'') else Inr (PStr text))
        ''2019-02-30''
       = Inl (OtherError ''ValueError'')"
proof -
  have y: "yaml_text ''2019-02-30'' = ''2019-02-30''"
    by (simp add: yaml_text_def match_here_def fence_open_def strip_def lstrip_def rstrip_def
        is_space_def)
  let ?load = "\<lambda>text. if text = ''2019-02-30'' then Inl (OtherError ''ValueError'')
                        else Inr (PStr text)"
  have "?load (yaml_text ''2019-02-30'') = Inl (OtherError ''ValueError'')"
    by (simp add: y)
  then have "extract_decision ?load ''2019-02-30'' = Inl (OtherError ''ValueError'')"
    by (rule extract_decision_propagates) simp
  with y show ?thesis by blast
qed

text \<open>
  C6. When the call to the model raises, \<^verbatim>\<open>call_llm\<close> returns the empty string; and
  \<^verbatim>\<open>extract_decision\<close> on that empty reply returns the empty mapping, the loader giving
  \<^verbatim>\<open>None\<close> for an empty document.
\<close>

theorem llm_failure_gives_empty_mapping:
  assumes "chat prompt = Inl e"
    and "safe_load [] = Inr PNone"
  shows "call_llm chat prompt = []
       \<and> extract_decision safe_load (call_llm chat prompt) = Inr (PDict [])"
proof -
  from assms(1) have c: "call_llm chat prompt = []" by (simp add: call_llm_def)
  from assms(2) have "extract_decision safe_load [] = Inr (PDict [])"
    by (simp add: extract_decision_def try_load_def yaml_text_empty)
  with c show ?thesis by simp
qed

theorem llm_failure_gives_empty_mapping_witness:
  "call_llm (\<lambda>prompt. Inl (OtherError ''ConnectionError'')) ''What next?'' = []
   \<and> extract_decision (\<lambda>text. if text = [] then Inr PNone else Inr (PStr text))
        (call_llm (\<lambda>prompt. Inl (OtherError ''ConnectionError'')) ''What next?'')
       = Inr (PDict [])"
  by (rule llm_failure_gives_empty_mapping) simp_all

text \<open>
  C10. \<^verbatim>\<open>extract_decision\<close> does not always return a mapping: whenever the loader makes
  a non-empty string of the candidate payload (as YAML does of a plain sentence), that
  string itself is the result.
\<close>

theorem extract_decision_scalar:
  assumes "safe_load (yaml_text response) = Inr (PStr s)"
    and "s \<noteq> []"
  shows "extract_decision safe_load response = Inr (PStr s)
       \<and> (\<forall>kvs. extract_decision safe_load response \<noteq> Inr (PDict kvs))"
  using assms by (simp add: extract_decision_def try_load_def)

theorem extract_decision_scalar_witness:
  "yaml_text ''I think the answer is John Doe'' = ''I think the answer is John Doe''
   \<and> extract_decision (\<lambda>text. Inr (PStr text)) ''I think the answer is John Doe''
       = Inr (PStr ''I think the answer is John Doe'')"
proof -
  have y: "yaml_text ''I think the answer is John Doe'' = ''I think the answer is John Doe''"
    by (simp add: yaml_text_def match_here_def fence_open_def strip_def lstrip_def rstrip_def
        is_space_def)
  have "(\<lambda>text. Inr (PStr text)) (yaml_text ''I think the answer is John Doe'')
          = (Inr (PStr ''I think the answer is John Doe'') :: pyval result)"
    by (simp add: y)
  then have "extract_decision (\<lambda>text. Inr (PStr text)) ''I think the answer is John Doe''
       = Inr (PStr ''I think the answer is John Doe'')"
    using extract_decision_scalar[of "\<lambda>text. Inr (PStr text)" "''I think the answer is John Doe''"
        "''I think the answer is John Doe''"] by simp
  with y show ?thesis by blast
qed

lemma search_web_post_entry:
  assumes "shared ''search_query'' = Some (PStr query)"
    and "shared ''context'' = None \<and> previous = [] \<or> shared ''context'' = Some (PStr previous)"
  shows "SearchWeb_post shared exec_res
       = Inr (PStr ''decide'',
              shared(''context'' \<mapsto>
                PStr (previous @ ''\<newline>\<newline>SEARCH: '' @ query @ ''\<newline>RESULTS: '' @ exec_res)))"
    and "SearchWeb_post_pc1 shared exec_res
       = Inr (PStr ''decide'',
              shared(''context'' \<mapsto>
                PStr (previous @ ''\<newline>\<newline>SEARCH: '' @ query @ ''\<newline>RESULTS: '' @ exec_res)))"
  using assms by (auto simp: SearchWeb_post_def SearchWeb_post_pc1_def)

text \<open>
  The Search state on a well-typed record: with \<^verbatim>\<open>search_query\<close> a string, \<^verbatim>\<open>context\<close>
  absent or a string, and a provider that returns a result list, it returns \<^verbatim>\<open>"decide"\<close>,
  whose successor is the Decide state, and leaves in \<^verbatim>\<open>context\<close> the previous text followed
  by a separator, the query, and one Title/URL/Snippet record per result, the records
  separated by a blank line (nothing after \<^verbatim>\<open>RESULTS: \<close> when there is no result).
\<close>

lemma search_state_appends_entry:
  assumes "store s ''search_query'' = Some (PStr query)"
    and "store s ''context'' = None \<and> previous = [] \<or> store s ''context'' = Some (PStr previous)"
    and "ddgs_text (PStr query) = Inr results"
  shows "run_node v safe_load chat ddgs_text Search s
       = Inr (PStr ''decide'',
              \<lparr>store = (store s)(''context'' \<mapsto>
                 PStr (previous @ ''\<newline>\<newline>SEARCH: '' @ query @ ''\<newline>RESULTS: '' @
                       join ''\<newline>\<newline>''
                         (map (\<lambda>r. ''Title: '' @ title r @ ''\<newline>URL: '' @ href r @
                                    ''\<newline>Snippet: '' @ body r) results))),
               llm_calls = llm_calls s, visited = visited s @ [Search]\<rparr>)
       \<and> get_next_node Search (PStr ''decide'') = Inr (Some Decide)"
proof -
  have f: "format_result = (\<lambda>r. ''Title: '' @ title r @ ''\<newline>URL: '' @ href r @
                                    ''\<newline>Snippet: '' @ body r)"
    by (rule ext) (simp add: format_result_def)
  have n: "get_next_node Search (PStr ''decide'') = Inr (Some Decide)"
    by (simp add: get_next_node_def)
  have "run_node v safe_load chat ddgs_text Search s
       = Inr (PStr ''decide'',
              \<lparr>store = (store s)(''context'' \<mapsto>
                 PStr (previous @ ''\<newline>\<newline>SEARCH: '' @ query @ ''\<newline>RESULTS: '' @
                       join ''\<newline>\<newline>'' (map format_result results))),
               llm_calls = llm_calls s, visited = visited s @ [Search]\<rparr>)"
    using assms(1,3) search_web_post_entry[OF assms(1,2)]
    by (cases v)
       (simp_all add: run_node_def SearchWeb_prep_def SearchWeb_exec_def search_web_duckduckgo_def)
  with n show ?thesis unfolding f by simp
qed

lemma search_state_appends_entry_example:
  "run_node Pc (\<lambda>text. Inr PNone) (\<lambda>n prompt. Inl TypeError)
     (\<lambda>query. Inr [\<lparr>title = ''T1'', href = ''U1'', body = ''B1''\<rparr>,
                    \<lparr>title = ''T2'', href = ''U2'', body = ''B2''\<rparr>])
     Search
     \<lparr>store = [''search_query'' \<mapsto> PStr ''Nobel'', ''context'' \<mapsto> PStr ''log''],
      llm_calls = 1, visited = [Decide]\<rparr>
   = Inr (PStr ''decide'',
          \<lparr>store = [''search_query'' \<mapsto> PStr ''Nobel'', ''context'' \<mapsto> PStr ''log'']
             (''context'' \<mapsto> PStr (''log\<newline>\<newline>SEARCH: Nobel\<newline>RESULTS: '' @
                ''Title: T1\<newline>URL: U1\<newline>Snippet: B1\<newline>\<newline>'' @
                ''Title: T2\<newline>URL: U2\<newline>Snippet: B2'')),
           llm_calls = 1, visited = [Decide, Search]\<rparr>)
   \<and> run_node Pc (\<lambda>text. Inr PNone) (\<lambda>n prompt. Inl TypeError) (\<lambda>query. Inr [])
     Search \<lparr>store = [''search_query'' \<mapsto> PStr ''Nobel''], llm_calls = 1, visited = [Decide]\<rparr>
   = Inr (PStr ''decide'',
          \<lparr>store = [''search_query'' \<mapsto> PStr ''Nobel'']
             (''context'' \<mapsto> PStr ''\<newline>\<newline>SEARCH: Nobel\<newline>RESULTS: ''),
           llm_calls = 1, visited = [Decide, Search]\<rparr>)"
  using search_state_appends_entry
      [of "\<lparr>store = [''search_query'' \<mapsto> PStr ''Nobel'', ''context'' \<mapsto> PStr ''log''],
            llm_calls = 1, visited = [Decide]\<rparr>" "''Nobel''" "''log''"
          "\<lambda>query. Inr [\<lparr>title = ''T1'', href = ''U1'', body = ''B1''\<rparr>,
                    \<lparr>title = ''T2'', href = ''U2'', body = ''B2''\<rparr>]" _ Pc
          "\<lambda>text. Inr PNone" "\<lambda>n prompt. Inl TypeError"]
    search_state_appends_entry
      [of "\<lparr>store = [''search_query'' \<mapsto> PStr ''Nobel''], llm_calls = 1, visited = [Decide]\<rparr>"
          "''Nobel''" "[]" "\<lambda>query. Inr []" "[]" Pc "\<lambda>text. Inr PNone" "\<lambda>n prompt. Inl TypeError"]
  by simp












text \<open>
  C9. The claim fails for the empty string: \<^verbatim>\<open>shared.get("context", "No previous search")\<close>
  falls back to the sentinel only when the key is absent. What holds is: with a question in
  the shared record, \<^verbatim>\<open>prep\<close> gives the sentinel \<^verbatim>\<open>No previous search\<close> as context when
  \<^verbatim>\<open>context\<close> is absent and the stored value itself when it is present, the empty string
  included; and the prompt that \<^verbatim>\<open>exec\<close> sends to the model is the template filled with the
  question and that context.
\<close>

theorem decide_prompt_context:
  assumes "shared ''question'' = Some question"
  shows "(shared ''context'' = None \<longrightarrow>
            DecideAction_prep shared = Inr (question, PStr ''No previous search''))
       \<and> (\<forall>c. shared ''context'' = Some c \<longrightarrow> DecideAction_prep shared = Inr (question, c))
       \<and> DecideAction_prompt (question, context)
           = decide_prompt (py_str question) (py_str context)
       \<and> DecideAction_exec safe_load chat (question, context)
           = extract_decision safe_load
               (call_llm chat (decide_prompt (py_str question) (py_str context)))"
  using assms
  by (simp add: DecideAction_prep_def DecideAction_prompt_def DecideAction_exec_def)

theorem decide_prompt_context_witness:
  "DecideAction_prep [''question'' \<mapsto> PStr ''Who?''] = Inr (PStr ''Who?'', PStr ''No previous search'')
   \<and> DecideAction_prep [''question'' \<mapsto> PStr ''Who?'', ''context'' \<mapsto> PStr []]
       = Inr (PStr ''Who?'', PStr [])
   \<and> DecideAction_prompt (PStr ''Who?'', PStr ''No previous search'')
       = decide_prompt ''Who?'' ''No previous search''"
proof -
  have q1: "[''question'' \<mapsto> PStr ''Who?''] ''question'' = Some (PStr ''Who?'')" by simp
  have c1: "[''question'' \<mapsto> PStr ''Who?''] ''context'' = None" by simp
  have q2: "[''question'' \<mapsto> PStr ''Who?'', ''context'' \<mapsto> PStr []] ''question''
      = Some (PStr ''Who?'')" by simp
  have c2: "[''question'' \<mapsto> PStr ''Who?'', ''context'' \<mapsto> PStr []] ''context''
      = Some (PStr [])" by simp
  have one: "DecideAction_prep [''question'' \<mapsto> PStr ''Who?'']
      = Inr (PStr ''Who?'', PStr ''No previous search'')"
    by (rule decide_prompt_context[where shared = "[''question'' \<mapsto> PStr ''Who?'']", OF q1,
          THEN conjunct1, THEN mp, OF c1])
  have two: "DecideAction_prep [''question'' \<mapsto> PStr ''Who?'', ''context'' \<mapsto> PStr []]
      = Inr (PStr ''Who?'', PStr [])"
    by (rule decide_prompt_context
          [where shared = "[''question'' \<mapsto> PStr ''Who?'', ''context'' \<mapsto> PStr []]", OF q2,
           THEN conjunct2, THEN conjunct1, THEN spec, THEN mp, OF c2])
  have "DecideAction_prompt (PStr ''Who?'', PStr ''No previous search'')
      = decide_prompt (py_str (PStr ''Who?'')) (py_str (PStr ''No previous search''))"
    by (rule decide_prompt_context[where shared = "[''question'' \<mapsto> PStr ''Who?'']", OF q1,
          THEN conjunct2, THEN conjunct2, THEN conjunct1])
  then have three: "DecideAction_prompt (PStr ''Who?'', PStr ''No previous search'')
      = decide_prompt ''Who?'' ''No previous search''"
    by simp
  from one two three show ?thesis by blast
qed

text \<open>Counterexample to C9 as stated: \<^verbatim>\<open>context\<close> is the empty string, and the prompt is
  built with the empty string, not with the sentinel.\<close>

theorem empty_context_no_sentinel:
  "DecideAction_prep [''question'' \<mapsto> PStr ''Who?'', ''context'' \<mapsto> PStr []]
     = Inr (PStr ''Who?'', PStr [])
   \<and> DecideAction_prompt (PStr ''Who?'', PStr [])
       \<noteq> DecideAction_prompt (PStr ''Who?'', PStr ''No previous search'')"
  by (simp add: DecideAction_prep_def DecideAction_prompt_def decide_prompt_def)

lemma get_next_node_answer: "get_next_node Decide (PStr ''answer'') = Inr (Some Answer)"
  by (simp add: get_next_node_def)

lemma get_next_node_done: "get_next_node Answer (PStr ''done'') = Inr None"
  by (simp add: get_next_node_def)

lemma flow_answer_decision:
  assumes "extract_decision safe_load
             (call_llm (chat 0) (decide_prompt question ''No previous search'')) = Inr (PDict kvs)"
    and "map_of kvs (PStr ''action'') = Some (PStr ''answer'')"
    and "map_of kvs (PStr ''answer'') = Some answer"
  shows "agent_flow_run v safe_load chat ddgs_text [''question'' \<mapsto> PStr question]
       = Some (Inr (PStr ''done'',
           \<lparr>store = [''question'' \<mapsto> PStr question, ''context'' \<mapsto> answer,
                     ''answer'' \<mapsto> PStr (call_llm (chat 1) (answer_prompt question (py_str answer)))],
            llm_calls = 2, visited = [Decide, Answer]\<rparr>))"
proof -
  let ?s0 = "\<lparr>store = [''question'' \<mapsto> PStr question], llm_calls = 0, visited = []\<rparr>"
  let ?s1 = "\<lparr>store = [''question'' \<mapsto> PStr question, ''context'' \<mapsto> answer],
              llm_calls = Suc 0, visited = [Decide]\<rparr>"
  let ?s2 = "\<lparr>store = [''question'' \<mapsto> PStr question, ''context'' \<mapsto> answer,
                     ''answer'' \<mapsto> PStr (call_llm (chat 1) (answer_prompt question (py_str answer)))],
            llm_calls = 2, visited = [Decide, Answer]\<rparr>"
  have decide: "run_node v safe_load chat ddgs_text Decide ?s0 = Inr (PStr ''answer'', ?s1)"
    using assms
    by (cases v)
       (simp_all add: run_node_def DecideAction_prep_def DecideAction_exec_def
          DecideAction_prompt_def DecideAction_post_def DecideAction_post_pc1_def)
  have answer: "run_node v safe_load chat ddgs_text Answer ?s1 = Inr (PStr ''done'', ?s2)"
    by (simp add: run_node_def AnswerQuestion_prep_def AnswerQuestion_exec_def
        AnswerQuestion_post_def numeral_2_eq_2)
  have "orch v safe_load chat ddgs_text Answer ?s1 = Some (Inr (PStr ''done'', ?s2))"
    by (subst orch.simps) (simp add: answer get_next_node_done)
  then have "orch v safe_load chat ddgs_text Decide ?s0 = Some (Inr (PStr ''done'', ?s2))"
    by (subst orch.simps) (simp add: decide get_next_node_answer)
  then show ?thesis by (simp add: agent_flow_run_def)
qed

lemma yaml_text_stub: "yaml_text (answer_block ''John Doe'') = answer_payload ''John Doe''"
  by (simp add: answer_block_def answer_payload_def yaml_text_def match_here_def fence_open_def
      fence_close_def is_space_def strip_def lstrip_def rstrip_def)

lemma stub_decision:
  "extract_decision stub_load (call_llm (stub_chat n) prompt)
     = Inr (PDict [(PStr ''action'', PStr ''answer''), (PStr ''answer'', PStr ''John Doe'')])"
  by (simp add: call_llm_def stub_chat_def extract_decision_def try_load_def yaml_text_stub
      stub_load_def)

lemma stub_reply: "call_llm (stub_chat n) prompt = answer_block ''John Doe''"
  by (simp add: call_llm_def stub_chat_def)

text \<open>
  C7. The claim fails on the final answer: the Answer state calls the model again and
  stores that reply, so a stub that always returns the decision block leaves the block
  as the answer. What holds is: when the first reply of the model parses to a mapping
  with \<^verbatim>\<open>action: answer\<close>, the flow started on \<^verbatim>\<open>{"question": question}\<close> ends after one
  Decide and one Answer execution, with the decision's answer in \<^verbatim>\<open>context\<close> and, in
  \<^verbatim>\<open>answer\<close>, the model's reply to the prompt of the Answer state.
\<close>

theorem answer_decision_ends_flow:
  assumes "extract_decision safe_load
             (call_llm (chat 0) (decide_prompt question ''No previous search'')) = Inr (PDict kvs)"
    and "map_of kvs (PStr ''action'') = Some (PStr ''answer'')"
    and "map_of kvs (PStr ''answer'') = Some answer"
  shows "agent_flow_run v safe_load chat ddgs_text [''question'' \<mapsto> PStr question]
       = Some (Inr (PStr ''done'',
           \<lparr>store = [''question'' \<mapsto> PStr question, ''context'' \<mapsto> answer,
                     ''answer'' \<mapsto> PStr (call_llm (chat 1) (answer_prompt question (py_str answer)))],
            llm_calls = 2, visited = [Decide, Answer]\<rparr>))"
  using assms by (rule flow_answer_decision)

theorem answer_decision_ends_flow_witness:
  "agent_flow_run Pc1 stub_load stub_chat (\<lambda>query. Inr [])
     [''question'' \<mapsto> PStr ''Who won the Nobel Prize in Physics 2024?'']
   = Some (Inr (PStr ''done'',
       \<lparr>store = [''question'' \<mapsto> PStr ''Who won the Nobel Prize in Physics 2024?'',
                 ''context'' \<mapsto> PStr ''John Doe'',
                 ''answer'' \<mapsto> PStr (answer_block ''John Doe'')],
        llm_calls = 2, visited = [Decide, Answer]\<rparr>))"
proof -
  have "agent_flow_run Pc1 stub_load stub_chat (\<lambda>query. Inr [])
     [''question'' \<mapsto> PStr ''Who won the Nobel Prize in Physics 2024?'']
   = Some (Inr (PStr ''done'',
       \<lparr>store = [''question'' \<mapsto> PStr ''Who won the Nobel Prize in Physics 2024?'',
                 ''context'' \<mapsto> PStr ''John Doe'',
                 ''answer'' \<mapsto> PStr (call_llm (stub_chat 1)
                    (answer_prompt ''Who won the Nobel Prize in Physics 2024?''
                       (py_str (PStr ''John Doe''))))],
        llm_calls = 2, visited = [Decide, Answer]\<rparr>))"
    by (rule answer_decision_ends_flow[where chat = stub_chat and safe_load = stub_load,
          OF stub_decision]) simp_all
  then show ?thesis by (simp only: stub_reply)
qed

text \<open>Counterexample to C7 as stated: with the stub that always returns the decision
  block, in both variants the final \<^verbatim>\<open>answer\<close> is the text of the block.\<close>

theorem stub_answer_is_not_john_doe:
  "agent_flow_run Pc stub_load stub_chat (\<lambda>query. Inr [])
     [''question'' \<mapsto> PStr ''Who won the Nobel Prize in Physics 2024?'']
   = Some (Inr (PStr ''done'',
       \<lparr>store = [''question'' \<mapsto> PStr ''Who won the Nobel Prize in Physics 2024?'',
                 ''context'' \<mapsto> PStr ''John Doe'',
                 ''answer'' \<mapsto> PStr (answer_block ''John Doe'')],
        llm_calls = 2, visited = [Decide, Answer]\<rparr>))
   \<and> agent_flow_run Pc1 stub_load stub_chat (\<lambda>query. Inr [])
     [''question'' \<mapsto> PStr ''Who won the Nobel Prize in Physics 2024?'']
   = Some (Inr (PStr ''done'',
       \<lparr>store = [''question'' \<mapsto> PStr ''Who won the Nobel Prize in Physics 2024?'',
                 ''context'' \<mapsto> PStr ''John Doe'',
                 ''answer'' \<mapsto> PStr (answer_block ''John Doe'')],
        llm_calls = 2, visited = [Decide, Answer]\<rparr>))
   \<and> answer_block ''John Doe'' \<noteq> ''John Doe''"
proof -
  have run: "agent_flow_run v stub_load stub_chat (\<lambda>query. Inr [])
     [''question'' \<mapsto> PStr ''Who won the Nobel Prize in Physics 2024?'']
   = Some (Inr (PStr ''done'',
       \<lparr>store = [''question'' \<mapsto> PStr ''Who won the Nobel Prize in Physics 2024?'',
                 ''context'' \<mapsto> PStr ''John Doe'',
                 ''answer'' \<mapsto> PStr (answer_block ''John Doe'')],
        llm_calls = 2, visited = [Decide, Answer]\<rparr>))" for v
    using flow_answer_decision[where chat = stub_chat and safe_load = stub_load and v = v
        and ddgs_text = "\<lambda>query. Inr []"
        and question = "''Who won the Nobel Prize in Physics 2024?''", OF stub_decision]
    by (simp add: stub_reply)
  have "answer_block ''John Doe'' \<noteq> ''John Doe''"
    by (simp add: answer_block_def)
  with run[of Pc] run[of Pc1] show ?thesis by blast
qed

lemma sublist_across_other:
  assumes "set xs \<subseteq> {c}" and "b \<noteq> c"
  shows "sublist xs (ys @ b # zs) \<longleftrightarrow> sublist xs ys \<or> sublist xs zs"
proof
  assume "sublist xs (ys @ b # zs)"
  then consider "sublist xs ys" | "sublist xs (b # zs)"
    | xs1 xs2 where "xs = xs1 @ xs2" "suffix xs1 ys" "prefix xs2 (b # zs)"
    by (auto simp: sublist_append)
  then show "sublist xs ys \<or> sublist xs zs"
  proof cases
    case 1
    then show ?thesis ..
  next
    case 2
    then have "prefix xs (b # zs) \<or> sublist xs zs" by (simp add: sublist_Cons_right)
    moreover have "prefix xs (b # zs) \<Longrightarrow> xs = []"
      using assms by (cases xs) auto
    ultimately show ?thesis by auto
  next
    case 3
    have "xs2 = []" using 3(1,3) assms by (cases xs2) auto
    with 3 have "suffix xs ys" by simp
    then show ?thesis by auto
  qed
next
  assume "sublist xs ys \<or> sublist xs zs"
  then show "sublist xs (ys @ b # zs)"
  proof
    assume "sublist xs ys"
    then show ?thesis by (auto simp: sublist_append)
  next
    assume "sublist xs zs"
    then have "sublist xs (b # zs)" by (simp add: sublist_Cons_right)
    then show ?thesis by (auto simp: sublist_append)
  qed
qed

lemma answer_block_split:
  "answer_block X = fence_open @ (''\<newline>'' @ answer_payload X @ ''\<newline>'') @ fence_close"
  by (simp add: answer_block_def fence_open_def fence_close_def)

lemma answer_interior_no_fence:
  assumes "\<not> sublist fence_close X"
  shows "\<not> sublist fence_close ((''\<newline>'' @ answer_payload X @ ''\<newline>'') @ ''``'')"
proof -
  have shape: "(''\<newline>'' @ answer_payload X @ ''\<newline>'') @ ''``''
      = ''\<newline>action: answer\<newline>answer: '' @ CHR 0x22 # (X @ CHR 0x22 # ''\<newline>``'')"
    by (simp add: answer_payload_def)
  have ticks: "set fence_close \<subseteq> {CHR 0x60}" by (simp add: fence_close_def)
  have q: "CHR 0x22 \<noteq> CHR 0x60" by simp
  have "\<not> sublist fence_close ''\<newline>action: answer\<newline>answer: ''"
    by (simp add: fence_close_def sublist_code)
  moreover have "\<not> sublist fence_close ''\<newline>``''"
    by (simp add: fence_close_def sublist_code)
  ultimately have "\<not> sublist fence_close (X @ CHR 0x22 # ''\<newline>``'')"
    and "\<not> sublist fence_close ''\<newline>action: answer\<newline>answer: ''"
    using assms sublist_across_other[OF ticks q, of X "''\<newline>``''"] by blast+
  then have "\<not> sublist fence_close
      (''\<newline>action: answer\<newline>answer: '' @ CHR 0x22 # (X @ CHR 0x22 # ''\<newline>``''))"
    using sublist_across_other[OF ticks q, of "''\<newline>action: answer\<newline>answer: ''"
        "X @ CHR 0x22 # ''\<newline>``''"] by blast
  then show ?thesis unfolding shape .
qed

lemma strip_answer_interior:
  "strip (''\<newline>'' @ answer_payload X @ ''\<newline>'') = answer_payload X"
  by (simp add: strip_def lstrip_def rstrip_def is_space_def answer_payload_def)

lemma answer_block_payload:
  assumes "\<not> sublist fence_open pre" and "\<not> sublist fence_close X"
  shows "yaml_text (pre @ answer_block X @ post) = answer_payload X"
proof -
  let ?interior = "''\<newline>'' @ answer_payload X @ ''\<newline>''"
  have "re_search (pre @ fence_open @ ?interior @ fence_close @ post) = Some (strip ?interior)"
    using assms(1) answer_interior_no_fence[OF assms(2)]
    by (rule re_search_skip[OF _ match_here_block])
  moreover have "pre @ answer_block X @ post = pre @ fence_open @ ?interior @ fence_close @ post"
    by (simp add: answer_block_split)
  ultimately have "yaml_text (pre @ answer_block X @ post) = strip (strip ?interior)"
    by (simp only: yaml_text_def option.case)
  then have "yaml_text (pre @ answer_block X @ post) = strip ?interior"
    by (simp only: strip_idem)
  then show ?thesis by (simp only: strip_answer_interior)
qed

text \<open>
  C8. The claim fails for an \<open>X\<close> that contains the closing fence: the lazy group of the
  regular expression ends at the first \<^verbatim>\<open>```\<close>, inside \<open>X\<close>. What holds is: for \<open>X\<close> without
  \<^verbatim>\<open>```\<close>, and a response whose first fenced block holds the lines \<^verbatim>\<open>action: answer\<close> and
  \<^verbatim>\<open>answer: "X"\<close>, the loader is given exactly these two lines, with \<open>X\<close> neither cut nor
  trimmed; and when the loader reads that payload as a mapping whose \<^verbatim>\<open>answer\<close> is \<open>X\<close>,
  that mapping is the decision returned.
\<close>

theorem quoted_answer_round_trip:
  assumes "\<not> sublist fence_open pre"
    and "\<not> sublist fence_close X"
    and "safe_load (answer_payload X) = Inr (PDict kvs)"
    and "map_of kvs (PStr ''answer'') = Some (PStr X)"
  shows "yaml_text (pre @ answer_block X @ post) = answer_payload X
       \<and> extract_decision safe_load (pre @ answer_block X @ post) = Inr (PDict kvs)
       \<and> getitem (PDict kvs) ''answer'' = Inr (PStr X)"
proof -
  have y: "yaml_text (pre @ answer_block X @ post) = answer_payload X"
    using assms(1,2) by (rule answer_block_payload)
  from assms(4) have "kvs \<noteq> []" by auto
  with assms(3) y
  have "extract_decision safe_load (pre @ answer_block X @ post) = Inr (PDict kvs)"
    by (simp add: extract_decision_def try_load_def)
  with y assms(4) show ?thesis by simp
qed

theorem quoted_answer_round_trip_witness:
  "extract_decision
     (\<lambda>text. if text = answer_payload '' John  Doe ''
              then Inr (PDict [(PStr ''action'', PStr ''answer''), (PStr ''answer'', PStr '' John  Doe '')])
              else Inl (YAMLError ''unexpected payload''))
     (''Here is my decision: '' @ answer_block '' John  Doe '' @ '' Done.'')
   = Inr (PDict [(PStr ''action'', PStr ''answer''), (PStr ''answer'', PStr '' John  Doe '')])"
proof -
  have h1: "\<not> sublist fence_open ''Here is my decision: ''"
    by (simp add: fence_open_def sublist_code)
  have h2: "\<not> sublist fence_close '' John  Doe ''"
    by (simp add: fence_close_def sublist_code)
  let ?load = "\<lambda>text. if text = answer_payload '' John  Doe ''
              then Inr (PDict [(PStr ''action'', PStr ''answer''), (PStr ''answer'', PStr '' John  Doe '')])
              else Inl (YAMLError ''unexpected payload'')"
  have h3: "?load (answer_payload '' John  Doe '')
      = Inr (PDict [(PStr ''action'', PStr ''answer''), (PStr ''answer'', PStr '' John  Doe '')])"
    by simp
  have h4: "map_of [(PStr ''action'', PStr ''answer''), (PStr ''answer'', PStr '' John  Doe '')]
      (PStr ''answer'') = Some (PStr '' John  Doe '')"
    by simp
  show ?thesis
    by (rule quoted_answer_round_trip[where safe_load = ?load, OF h1 h2 h3 h4,
          THEN conjunct2, THEN conjunct1])
qed

text \<open>Counterexample to C8 as stated: for \<open>X\<close> the fence itself and for the fence followed
  by a letter, the text given to the loader is the same, so whatever the loader does the
  answers cannot both come back.\<close>

theorem fence_in_answer_is_cut:
  "\<forall>safe_load.
     \<not> (\<forall>X. \<exists>kvs. extract_decision safe_load (answer_block X) = Inr (PDict kvs)
                  \<and> map_of kvs (PStr ''answer'') = Some (PStr X))"
proof (intro allI notI)
  fix safe_load :: "string \<Rightarrow> pyval result"
  assume all: "\<forall>X. \<exists>kvs. extract_decision safe_load (answer_block X) = Inr (PDict kvs)
                  \<and> map_of kvs (PStr ''answer'') = Some (PStr X)"
  have y1: "yaml_text (answer_block ''```'') = ''action: answer\<newline>answer: '' @ [CHR 0x22]"
    by (simp add: answer_block_def answer_payload_def yaml_text_def match_here_def fence_open_def
        fence_close_def is_space_def strip_def lstrip_def rstrip_def)
  have y2: "yaml_text (answer_block ''```a'') = ''action: answer\<newline>answer: '' @ [CHR 0x22]"
    by (simp add: answer_block_def answer_payload_def yaml_text_def match_here_def fence_open_def
        fence_close_def is_space_def strip_def lstrip_def rstrip_def)
  have same: "extract_decision safe_load (answer_block ''```'')
      = extract_decision safe_load (answer_block ''```a'')"
    by (simp add: extract_decision_def y1 y2)
  from all obtain k1 where k1: "extract_decision safe_load (answer_block ''```'') = Inr (PDict k1)"
    "map_of k1 (PStr ''answer'') = Some (PStr ''```'')" by blast
  from all obtain k2 where k2: "extract_decision safe_load (answer_block ''```a'') = Inr (PDict k2)"
    "map_of k2 (PStr ''answer'') = Some (PStr ''```a'')" by blast
  from same k1(1) k2(1) have "k1 = k2" by simp
  with k1(2) k2(2) show False by simp
qed




lemma int_str_2024: "int_str 2024 = ''2024''"
  by code_simp

lemma get_next_node_search: "get_next_node Decide (PStr ''search'') = Inr (Some Search)"
  by (simp add: get_next_node_def)

lemma flow_crashes_on_integer_query:
  assumes "extract_decision safe_load
             (call_llm (chat 0) (decide_prompt question ''No previous search'')) = Inr (PDict kvs)"
    and "map_of kvs (PStr ''action'') = Some (PStr ''search'')"
    and "map_of kvs (PStr ''search_query'') = Some (PInt 2024)"
    and "ddgs_text (PInt 2024) = Inr results"
  shows "agent_flow_run Pc safe_load chat ddgs_text [''question'' \<mapsto> PStr question]
       = Some (Inl TypeError)"
proof -
  let ?s0 = "\<lparr>store = [''question'' \<mapsto> PStr question], llm_calls = 0, visited = []\<rparr>"
  let ?s1 = "\<lparr>store = [''question'' \<mapsto> PStr question, ''search_query'' \<mapsto> PInt 2024],
              llm_calls = Suc 0, visited = [Decide]\<rparr>"
  have decide: "run_node Pc safe_load chat ddgs_text Decide ?s0 = Inr (PStr ''search'', ?s1)"
    using assms(1-3)
    by (simp add: run_node_def DecideAction_prep_def DecideAction_exec_def
        DecideAction_prompt_def DecideAction_post_def)
  have search: "run_node Pc safe_load chat ddgs_text Search ?s1 = Inl TypeError"
    using assms(4)
    by (simp add: run_node_def SearchWeb_prep_def SearchWeb_exec_def search_web_duckduckgo_def
        SearchWeb_post_def)
  have "orch Pc safe_load chat ddgs_text Search ?s1 = Some (Inl TypeError)"
    by (subst orch.simps) (simp add: search)
  then have "orch Pc safe_load chat ddgs_text Decide ?s0 = Some (Inl TypeError)"
    by (subst orch.simps) (simp add: decide get_next_node_search)
  then show ?thesis by (simp add: agent_flow_run_def)
qed

text \<open>
  C4. The claim asks that the Search state append its entry and return \<^verbatim>\<open>"decide"\<close> for
  every shared record that has a \<^verbatim>\<open>search_query\<close>. \<^verbatim>\<open>DecideAction.post\<close> stores the query as
  the decision holds it, and \<^verbatim>\<open>SearchWeb.post\<close> of \<^verbatim>\<open>pc.py\<close> builds the entry with \<^verbatim>\<open>+\<close>:
  when the query is the integer 2024 it raises \<^verbatim>\<open>TypeError\<close>, whatever the search
  returned, where \<^verbatim>\<open>pc1.py\<close> formats the query into the entry and returns \<^verbatim>\<open>"decide"\<close>.
\<close>

theorem search_post_raises_on_integer_query:
  "SearchWeb_post [''question'' \<mapsto> PStr question, ''search_query'' \<mapsto> PInt 2024] exec_res
     = Inl TypeError
   \<and> SearchWeb_post_pc1 [''question'' \<mapsto> PStr question, ''search_query'' \<mapsto> PInt 2024] exec_res
     = Inr (PStr ''decide'',
            [''question'' \<mapsto> PStr question, ''search_query'' \<mapsto> PInt 2024]
              (''context'' \<mapsto> PStr (''\<newline>\<newline>SEARCH: 2024\<newline>RESULTS: '' @ exec_res)))"
  by (simp add: SearchWeb_post_def SearchWeb_post_pc1_def int_str_2024)

end
